theory Spec2Isabelle
  imports Complex_Main
begin

section \<open>Data model\<close>

text \<open>
  JavaScript numbers are modelled as real numbers (exact arithmetic), object
  identities as natural numbers. A \<open>Sequence\<close> object owns a \<open>steps\<close> array of
  references to \<open>Step\<close> objects; \<open>indexOf\<close> compares these references.
\<close>

type_synonym step_ref = nat
type_synonym seq_ref = nat
type_synonym comp_ref = nat
type_synonym element = nat
type_synonym obj_ref = nat

text \<open>
  Modelled from the spec: the class \<open>Vector\<close> of \<open>core/vector\<close> is not among the
  sources; the spec lists it as "2D vector math". The four operations used by the
  workspace act componentwise.
\<close>

datatype Vector = Vector (vec_x: real) (vec_y: real)

definition add :: "Vector \<Rightarrow> Vector \<Rightarrow> Vector" where
  "add a b = Vector (vec_x a + vec_x b) (vec_y a + vec_y b)"

definition subtract :: "Vector \<Rightarrow> Vector \<Rightarrow> Vector" where
  "subtract a b = Vector (vec_x a - vec_x b) (vec_y a - vec_y b)"

definition multiplyByScalar :: "Vector \<Rightarrow> real \<Rightarrow> Vector" where
  "multiplyByScalar a s = Vector (vec_x a * s) (vec_y a * s)"

definition divideByScalar :: "Vector \<Rightarrow> real \<Rightarrow> Vector" where
  "divideByScalar a s = Vector (vec_x a / s) (vec_y a / s)"

text \<open>
  Modelled from the spec: the declarations of \<open>./component\<close> (\<open>StepComponent\<close>,
  \<open>StepComponentState\<close>, \<open>ComponentView\<close>) are not among the sources (spec:
  "Selecting a step sets its visual state"). A step component refers to the step
  it renders and to the sequence that holds the step, and carries the visual
  state that \<open>setState\<close> writes. A component view has its SVG group and its size.
\<close>

datatype StepComponentState = Default | Selected

record StepComponent =
  step :: step_ref
  parentSequence :: seq_ref
  state :: StepComponentState

record ComponentView =
  view_g :: element
  view_width :: real
  view_height :: real

text \<open>
  Modelled from the spec: \<open>StartStopComponent\<close> of \<open>./start-stop-component\<close> is
  not among the sources (spec: "hit-test against DOM nodes"). The workspace reads
  its view and calls its hit test \<open>findStepComponent\<close>, which answers \<open>null\<close>
  (\<open>None\<close>) or the step component rendered at a DOM element.
\<close>

record StartStopComponent =
  component_view :: ComponentView
  findStepComponent :: "element \<Rightarrow> comp_ref option"

record MouseEvent =
  button :: int
  target :: element
  mouse_pageX :: real
  mouse_pageY :: real

record WheelEvent =
  wheel_pageX :: real
  wheel_pageY :: real
  deltaY :: real

text \<open>
  The behaviors handed to the controller, each with the arguments of its
  \<open>create\<close> call other than the workspace or context itself.
\<close>

datatype Behavior =
    SelectStepBehavior comp_ref
  | MoveViewPortBehavior Vector
  | DragStepBehavior obj_ref

text \<open>
  Modelled from the spec: the class \<open>BehaviorController\<close> of
  \<open>behaviors/behavior-controller\<close> is not among the sources. The model keeps the
  calls of \<open>start\<close> in the order they are made, each with the pointer argument
  and the behavior that was passed.
\<close>

record 'p BehaviorController =
  started :: "('p \<times> Behavior) list"

definition start :: "'p \<Rightarrow> Behavior \<Rightarrow> 'p BehaviorController \<Rightarrow> 'p BehaviorController" where
  "start p b bc = bc\<lparr>started := started bc @ [(p, b)]\<rparr>"

text \<open>
  Modelled from the spec: \<open>SimpleEvent\<close> of \<open>core/simple-event\<close> is not among the
  sources (spec: "synchronous forward-call semantics"). Each \<open>forward\<close> of one of
  the four events of the workspace is appended to a log.
\<close>

datatype WorkspaceEvent =
    SelectedStepChanged "step_ref option"
  | ViewPortChanged
  | IsReadonlyChanged bool
  | Changed

subsection \<open>WorkspaceView\<close>

text \<open>
  The canvas rectangle and client size are read from the DOM; the attributes
  written by \<open>setPositionAndScale\<close> are kept as written.
\<close>

record WorkspaceView =
  canvas_rect :: Vector
  canvas_client :: Vector
  current_view :: "ComponentView option"
  foreground_children :: "element list"
  grid_pattern :: "(real \<times> real \<times> real \<times> real) option"
  grid_path :: "real option"
  foreground_transform :: "(Vector \<times> real) option"

definition GRID_SIZE :: real where
  "GRID_SIZE = 50"

definition setView :: "ComponentView \<Rightarrow> WorkspaceView \<Rightarrow> WorkspaceView" where
  "setView v wv =
     (let children = (case current_view wv of
                        Some old \<Rightarrow> remove1 (view_g old) (foreground_children wv)
                      | None \<Rightarrow> foreground_children wv)
      in wv\<lparr>foreground_children := children @ [view_g v], current_view := Some v\<rparr>)"

definition setPositionAndScale :: "Vector \<Rightarrow> real \<Rightarrow> WorkspaceView \<Rightarrow> WorkspaceView" where
  "setPositionAndScale p sc wv =
     (let sz = GRID_SIZE * sc
      in wv\<lparr>grid_pattern := Some (vec_x p, vec_y p, sz, sz),
             grid_path := Some sz,
             foreground_transform := Some (p, sc)\<rparr>)"

definition getPosition :: "WorkspaceView \<Rightarrow> Vector" where
  "getPosition wv = canvas_rect wv"

definition getSize :: "WorkspaceView \<Rightarrow> Vector" where
  "getSize wv = canvas_client wv"

subsection \<open>Workspace\<close>

text \<open>
  The fields of the class, the log of forwarded events, and the two stores the
  workspace reaches through references: the \<open>steps\<close> array of every sequence and
  the step components.
\<close>

record Workspace =
  view :: WorkspaceView
  sequence :: seq_ref
  behaviorController :: "MouseEvent BehaviorController"
  mainComponent :: "StartStopComponent option"
  selectedStep :: "comp_ref option"
  isReadonly :: bool
  position :: Vector
  scale :: real
  events :: "WorkspaceEvent list"
  sequences :: "seq_ref \<Rightarrow> step_ref list"
  components :: "comp_ref \<Rightarrow> StepComponent"

definition forward :: "WorkspaceEvent \<Rightarrow> Workspace \<Rightarrow> Workspace" where
  "forward ev ws = ws\<lparr>events := events ws @ [ev]\<rparr>"

definition setState :: "comp_ref \<Rightarrow> StepComponentState \<Rightarrow> Workspace \<Rightarrow> Workspace" where
  "setState c st ws = ws\<lparr>components := (components ws)(c := (components ws c)\<lparr>state := st\<rparr>)\<rparr>"

definition wheelDelta :: "WheelEvent \<Rightarrow> real" where
  "wheelDelta e = (if deltaY e > 0 then - 0.1 else 0.1)"

definition onWheel :: "WheelEvent \<Rightarrow> Workspace \<Rightarrow> Workspace" where
  "onWheel e ws =
     (let mousePoint = subtract (Vector (wheel_pageX e) (wheel_pageY e)) (getPosition (view ws));
          mouseRealPoint = subtract (divideByScalar mousePoint (scale ws))
                                    (divideByScalar (position ws) (scale ws));
          newScale = min (max (scale ws + wheelDelta e) 0.1) 3;
          newPosition = add (multiplyByScalar mouseRealPoint (- newScale)) mousePoint;
          ws1 = ws\<lparr>position := newPosition, scale := newScale\<rparr>;
          ws2 = ws1\<lparr>view := setPositionAndScale (position ws1) (scale ws1) (view ws1)\<rparr>
      in forward ViewPortChanged ws2)"

definition setPosition :: "Vector \<Rightarrow> Workspace \<Rightarrow> Workspace" where
  "setPosition p ws =
     (let ws1 = ws\<lparr>position := p\<rparr>;
          ws2 = ws1\<lparr>view := setPositionAndScale (position ws1) (scale ws1) (view ws1)\<rparr>
      in forward ViewPortChanged ws2)"

definition center :: "Workspace \<Rightarrow> Workspace" where
  "center ws =
     (case mainComponent ws of
        None \<Rightarrow> ws
      | Some mc \<Rightarrow>
          (let sz = getSize (view ws);
               x = max 0 ((vec_x sz - view_width (component_view mc)) / 2);
               y = max 20 ((vec_y sz - view_height (component_view mc)) / 2);
               ws1 = ws\<lparr>position := Vector x y, scale := 1\<rparr>;
               ws2 = ws1\<lparr>view := setPositionAndScale (position ws1) (scale ws1) (view ws1)\<rparr>
           in forward ViewPortChanged ws2))"

subsection \<open>Array operations of the host language\<close>

text \<open>
  \<open>Array.prototype.indexOf\<close>: the first index holding a strictly equal element,
  \<open>-1\<close> when there is none.
\<close>

primrec indexOf :: "'a list \<Rightarrow> 'a \<Rightarrow> int" where
  "indexOf [] a = - 1"
| "indexOf (b # bs) a =
     (if b = a then 0
      else (let i = indexOf bs a in if i < 0 then - 1 else i + 1))"

text \<open>
  \<open>Array.prototype.splice(start, deleteCount)\<close> without inserted items: a negative
  \<open>start\<close> counts from the end, \<open>start\<close> and \<open>deleteCount\<close> are clamped to the
  array. The result is the array after the call.
\<close>

definition splice_array :: "'a list \<Rightarrow> int \<Rightarrow> int \<Rightarrow> 'a list" where
  "splice_array xs start_index deleteCount =
     (let len = int (length xs);
          actualStart = (if start_index < 0 then max (len + start_index) 0
                         else min start_index len);
          actualDeleteCount = min (max deleteCount 0) (len - actualStart)
      in take (nat actualStart) xs @ drop (nat (actualStart + actualDeleteCount)) xs)"

subsection \<open>Rendering, selection and removal\<close>

text \<open>
  Modelled from the spec: \<open>StartStopComponent.create\<close> of
  \<open>./start-stop-component\<close> is not among the sources (spec: "renders the root
  step tree"). It is a parameter \<open>create\<close> of the model: from the \<open>steps\<close> arrays,
  the existing step components and the root sequence it yields the new main
  component and the store of step components after the rendering.
\<close>

type_synonym renderer =
  "(seq_ref \<Rightarrow> step_ref list) \<Rightarrow> (comp_ref \<Rightarrow> StepComponent) \<Rightarrow> seq_ref
     \<Rightarrow> StartStopComponent \<times> (comp_ref \<Rightarrow> StepComponent)"

definition render :: "renderer \<Rightarrow> Workspace \<Rightarrow> Workspace" where
  "render create ws =
     (let (mc, cs) = create (sequences ws) (components ws) (sequence ws);
          ws1 = ws\<lparr>mainComponent := Some mc, components := cs\<rparr>
      in ws1\<lparr>view := setView (component_view mc) (view ws1)\<rparr>)"

definition onMouseDown :: "MouseEvent \<Rightarrow> Workspace \<Rightarrow> Workspace" where
  "onMouseDown e ws =
     (case mainComponent ws of
        None \<Rightarrow> ws
      | Some mc \<Rightarrow>
          (let isNotScrollClick = (button e \<noteq> 1);
               clickedStep = (if isNotScrollClick \<and> \<not> isReadonly ws
                              then findStepComponent mc (target e)
                              else None)
           in case clickedStep of
                Some c \<Rightarrow>
                  ws\<lparr>behaviorController :=
                       start e (SelectStepBehavior c) (behaviorController ws)\<rparr>
              | None \<Rightarrow>
                  ws\<lparr>behaviorController :=
                       start e (MoveViewPortBehavior (position ws)) (behaviorController ws)\<rparr>))"

definition selectStep :: "comp_ref \<Rightarrow> Workspace \<Rightarrow> Workspace" where
  "selectStep c ws =
     (let ws1 = (case selectedStep ws of
                   Some old \<Rightarrow> setState old Default ws
                 | None \<Rightarrow> ws);
          ws2 = ws1\<lparr>selectedStep := Some c\<rparr>;
          ws3 = setState c Selected ws2
      in forward (SelectedStepChanged (Some (step (components ws3 c)))) ws3)"

definition clearSelectedStep :: "Workspace \<Rightarrow> Workspace" where
  "clearSelectedStep ws =
     (case selectedStep ws of
        Some old \<Rightarrow>
          (let ws1 = setState old Default ws;
               ws2 = ws1\<lparr>selectedStep := None\<rparr>
           in forward (SelectedStepChanged None) ws2)
      | None \<Rightarrow> ws)"

definition notifyChanged :: "renderer \<Rightarrow> Workspace \<Rightarrow> Workspace" where
  "notifyChanged create ws = forward Changed (render create (clearSelectedStep ws))"

definition removeSelectedStep :: "renderer \<Rightarrow> Workspace \<Rightarrow> Workspace" where
  "removeSelectedStep create ws =
     (case selectedStep ws of
        Some sel \<Rightarrow>
          (let parent = parentSequence (components ws sel);
               index = indexOf (sequences ws parent) (step (components ws sel));
               ws1 = ws\<lparr>sequences :=
                          (sequences ws)(parent := splice_array (sequences ws parent) index 1)\<rparr>
           in notifyChanged create ws1)
      | None \<Rightarrow> ws)"

definition toggleIsReadonly :: "Workspace \<Rightarrow> Workspace" where
  "toggleIsReadonly ws =
     (let ws1 = ws\<lparr>isReadonly := \<not> isReadonly ws\<rparr>
      in forward (IsReadonlyChanged (isReadonly ws1)) ws1)"

text \<open>The state the constructor leaves: the field initialisers of the class.\<close>

definition new_Workspace ::
  "WorkspaceView \<Rightarrow> seq_ref \<Rightarrow> MouseEvent BehaviorController
     \<Rightarrow> (seq_ref \<Rightarrow> step_ref list) \<Rightarrow> (comp_ref \<Rightarrow> StepComponent) \<Rightarrow> Workspace" where
  "new_Workspace v s bc seqs comps =
     \<lparr>view = v, sequence = s, behaviorController = bc, mainComponent = None,
      selectedStep = None, isReadonly = False, position = Vector 0 0, scale = 1,
      events = [], sequences = seqs, components = comps\<rparr>"

text \<open>Calls of \<open>selectStep\<close> and \<open>clearSelectedStep\<close>, run in order.\<close>

datatype SelectionCall = SelectStep comp_ref | ClearSelectedStep

fun selection_call :: "Workspace \<Rightarrow> SelectionCall \<Rightarrow> Workspace" where
  "selection_call ws (SelectStep c) = selectStep c ws"
| "selection_call ws ClearSelectedStep = clearSelectedStep ws"

definition selected_components :: "Workspace \<Rightarrow> comp_ref set" where
  "selected_components ws = {c. state (components ws c) = Selected}"

section \<open>Toolbox item\<close>

text \<open>
  Modelled from the spec: the plain-data shape of a step ("id, type, name,
  properties, optional nested sequence"); the declarations of \<open>Step\<close> and
  \<open>StepDefinition\<close> are not among the sources. An absent \<open>id\<close> property is \<open>None\<close>.
\<close>

type_synonym uid = nat

datatype StepObject =
  StepObject (step_id: "uid option") (step_type: string) (step_name: string)
    (properties: "(string \<times> string) list") (nested: "StepObject list option")

fun set_id :: "uid option \<Rightarrow> StepObject \<Rightarrow> StepObject" where
  "set_id i (StepObject _ t n ps sq) = StepObject i t n ps sq"

datatype error = Error string

record TouchEvent =
  touches :: "Vector list"

text \<open>What a handler did to the event it received.\<close>

record EventFlags =
  propagationStopped :: bool
  defaultPrevented :: bool

definition no_flags :: EventFlags where
  "no_flags = \<lparr>propagationStopped = False, defaultPrevented = False\<rparr>"

text \<open>
  The toolbox item with what it reaches: the template \<open>step\<close>, the readonly flag
  of the designer state, the behavior controller, the object store that holds
  the step objects (every address below \<open>next_ref\<close> is allocated) and the state
  of \<open>Uid\<close>.
\<close>

record ToolboxItem =
  item_step :: obj_ref
  state_isReadonly :: bool
  item_behaviorController :: "Vector BehaviorController"
  objects :: "obj_ref \<Rightarrow> StepObject"
  next_ref :: obj_ref
  uid_issued :: nat

text \<open>
  Modelled from the spec: \<open>ObjectCloner.deepClone\<close> of \<open>core/object-cloner\<close> is
  not among the sources (spec: "deep-copy of step definitions", "structural
  recursive copy"). The copy is a new object, at an address not allocated
  before, with the contents of the original.
\<close>

definition deepClone :: "obj_ref \<Rightarrow> ToolboxItem \<Rightarrow> obj_ref \<times> ToolboxItem" where
  "deepClone r w =
     (next_ref w, w\<lparr>objects := (objects w)(next_ref w := objects w r),
                    next_ref := Suc (next_ref w)\<rparr>)"

text \<open>
  Modelled from the spec: \<open>Uid.next\<close> of \<open>core/uid\<close> is not among the sources
  (spec: "unique ID assignment", "a fresh unique ID"). The identifiers issued
  so far are the numbers below \<open>uid_issued\<close>; \<open>Uid_next\<close> issues the next one.
\<close>

definition Uid_next :: "ToolboxItem \<Rightarrow> uid \<times> ToolboxItem" where
  "Uid_next w = (uid_issued w, w\<lparr>uid_issued := Suc (uid_issued w)\<rparr>)"

definition issued_ids :: "ToolboxItem \<Rightarrow> uid set" where
  "issued_ids w = {i. i < uid_issued w}"

text \<open>
  Modelled from the spec: \<open>readMousePosition\<close> and \<open>readTouchPosition\<close> of
  \<open>core/event-readers\<close> are not among the sources (spec: "mouse position, touch
  position extraction"). The touch position is that of the first touch; an
  event without touches has none.
\<close>

definition readMousePosition :: "MouseEvent \<Rightarrow> Vector" where
  "readMousePosition e = Vector (mouse_pageX e) (mouse_pageY e)"

definition readTouchPosition :: "TouchEvent \<Rightarrow> error + Vector" where
  "readTouchPosition e =
     (case touches e of
        [] \<Rightarrow> Inl (Error ''Unknown touch position'')
      | t # _ \<Rightarrow> Inr t)"

definition createStep :: "obj_ref \<Rightarrow> ToolboxItem \<Rightarrow> obj_ref \<times> ToolboxItem" where
  "createStep s w =
     (let (newStep, w1) = deepClone s w;
          (i, w2) = Uid_next w1
      in (newStep, w2\<lparr>objects := (objects w2)(newStep := set_id (Some i) (objects w2 newStep))\<rparr>))"

definition startDrag :: "Vector \<Rightarrow> ToolboxItem \<Rightarrow> ToolboxItem" where
  "startDrag pos w =
     (if \<not> state_isReadonly w then
        (let (newStep, w1) = createStep (item_step w) w
         in w1\<lparr>item_behaviorController :=
                  start pos (DragStepBehavior newStep) (item_behaviorController w1)\<rparr>)
      else w)"

definition onTouchstart :: "TouchEvent \<Rightarrow> ToolboxItem \<Rightarrow> error + EventFlags \<times> ToolboxItem" where
  "onTouchstart e w =
     (let fl = no_flags\<lparr>defaultPrevented := True\<rparr>
      in if length (touches e) = 1 then
           (let fl1 = fl\<lparr>propagationStopped := True\<rparr>
            in case readTouchPosition e of
                 Inl err \<Rightarrow> Inl err
               | Inr pos \<Rightarrow> Inr (fl1, startDrag pos w))
         else Inr (fl, w))"

definition onMousedown :: "MouseEvent \<Rightarrow> ToolboxItem \<Rightarrow> EventFlags \<times> ToolboxItem" where
  "onMousedown e w =
     (let fl = no_flags\<lparr>propagationStopped := True\<rparr>;
          isPrimaryButton = (button e = 0)
      in if isPrimaryButton then (fl, startDrag (readMousePosition e) w) else (fl, w))"

definition onContextMenu :: "MouseEvent \<Rightarrow> ToolboxItem \<Rightarrow> EventFlags \<times> ToolboxItem" where
  "onContextMenu e w = (no_flags\<lparr>defaultPrevented := True\<rparr>, w)"

section \<open>Control bar\<close>

text \<open>
  The control bar reads \<open>selectedStep\<close> and \<open>isReadonly\<close> of the designer context;
  the rest of the context is the extension part of the record.
\<close>

record DesignerContext =
  context_selectedStep :: "step_ref option"
  context_isReadonly :: bool

text \<open>
  Modelled from the spec: the methods of the designer context that the delete
  button calls, and \<open>SequenceModifier.deleteStep\<close> of \<open>core/sequence-modifier\<close>,
  are not among the sources (spec: "delete button removes the current selection
  via the sequence-modifier collaborator and notifies definition change"). They
  are parameters of the model; each may throw.
\<close>

record 'c ContextMethods =
  getSelectedStepParentSequence :: "'c \<Rightarrow> error + seq_ref"
  deleteStep :: "step_ref \<Rightarrow> seq_ref \<Rightarrow> 'c \<Rightarrow> error + 'c"
  setSelectedStep :: "step_ref option \<Rightarrow> 'c \<Rightarrow> error + 'c"
  notifiyDefinitionChanged :: "'c \<Rightarrow> error + 'c"

definition and_then :: "error + 'a \<Rightarrow> ('a \<Rightarrow> error + 'b) \<Rightarrow> error + 'b" where
  "and_then r f = (case r of Inl err \<Rightarrow> Inl err | Inr v \<Rightarrow> f v)"

definition onDeleteButtonClicked ::
  "('a DesignerContext_scheme) ContextMethods \<Rightarrow> 'a DesignerContext_scheme
     \<Rightarrow> error + 'a DesignerContext_scheme" where
  "onDeleteButtonClicked m ctx =
     (case context_selectedStep ctx of
        Some sel \<Rightarrow>
          and_then (getSelectedStepParentSequence m ctx) (\<lambda>parentSeq.
          and_then (deleteStep m sel parentSeq ctx) (\<lambda>ctx1.
          and_then (setSelectedStep m None ctx1) (\<lambda>ctx2.
          notifiyDefinitionChanged m ctx2)))
      | None \<Rightarrow> Inr ctx)"

section \<open>Notions used by the statements\<close>

text \<open>
  The foreground group is drawn with the transform \<open>translate(p) scale(s)\<close> that
  \<open>setPositionAndScale\<close> writes: a point of the canvas appears on the screen
  (relative to the canvas origin) at the point scaled by \<open>s\<close> and moved by \<open>p\<close>.
\<close>

definition to_screen :: "Workspace \<Rightarrow> Vector \<Rightarrow> Vector" where
  "to_screen ws p = add (multiplyByScalar p (scale ws)) (position ws)"

definition wheel_events :: "WheelEvent list \<Rightarrow> Workspace \<Rightarrow> Workspace" where
  "wheel_events es ws = foldl (\<lambda>w e. onWheel e w) ws es"

definition selection_calls :: "SelectionCall list \<Rightarrow> Workspace \<Rightarrow> Workspace" where
  "selection_calls cs ws = foldl selection_call ws cs"

text \<open>
  The step components in the selected state are exactly the one the workspace
  records as selected, if any.
\<close>

definition selection_consistent :: "Workspace \<Rightarrow> bool" where
  "selection_consistent ws =
     (selected_components ws = (case selectedStep ws of None \<Rightarrow> {} | Some c \<Rightarrow> {c}))"

text \<open>
  The toolbox item after a drag of a new step was started at \<open>pos\<close>: the copy of
  the template is a new object carrying the next identifier, and the controller
  was asked to start dragging it.
\<close>

definition dragged_from :: "Vector \<Rightarrow> ToolboxItem \<Rightarrow> ToolboxItem" where
  "dragged_from pos w =
     w\<lparr>objects := (objects w)(next_ref w := set_id (Some (uid_issued w)) (objects w (item_step w))),
       next_ref := Suc (next_ref w),
       uid_issued := Suc (uid_issued w),
       item_behaviorController :=
         (item_behaviorController w)
           \<lparr>started := started (item_behaviorController w) @ [(pos, DragStepBehavior (next_ref w))]\<rparr>\<rparr>"

section \<open>Example states\<close>

definition example_view :: WorkspaceView where
  "example_view =
     \<lparr>canvas_rect = Vector 10 20, canvas_client = Vector 800 600, current_view = None,
      foreground_children = [], grid_pattern = None, grid_path = None,
      foreground_transform = None\<rparr>"

definition example_sequences :: "seq_ref \<Rightarrow> step_ref list" where
  "example_sequences q = (if q = 0 then [100, 101, 102] else [])"

definition example_components :: "comp_ref \<Rightarrow> StepComponent" where
  "example_components c = \<lparr>step = 99 + c, parentSequence = 0, state = Default\<rparr>"

definition example_main :: StartStopComponent where
  "example_main =
     \<lparr>component_view = \<lparr>view_g = 7, view_width = 200, view_height = 700\<rparr>,
      findStepComponent = (\<lambda>el. if el = 41 then Some 2 else None)\<rparr>"

definition example_create :: renderer where
  "example_create seqs comps s = (example_main, example_components)"

definition example_workspace :: Workspace where
  "example_workspace =
     render example_create
       (new_Workspace example_view 0 \<lparr>started = []\<rparr> example_sequences example_components)"

definition example_wheel :: WheelEvent where
  "example_wheel = \<lparr>wheel_pageX = 110, wheel_pageY = 220, deltaY = - 5\<rparr>"

definition example_press :: MouseEvent where
  "example_press = \<lparr>button = 0, target = 41, mouse_pageX = 30, mouse_pageY = 40\<rparr>"

definition example_template :: StepObject where
  "example_template = StepObject None ''task'' ''Send mail'' [(''to'', ''x'')] None"

definition example_item :: ToolboxItem where
  "example_item =
     \<lparr>item_step = 2, state_isReadonly = False, item_behaviorController = \<lparr>started = []\<rparr>,
      objects = (\<lambda>r. example_template), next_ref = 3, uid_issued = 5\<rparr>"

definition example_touch :: TouchEvent where
  "example_touch = \<lparr>touches = [Vector 3 4]\<rparr>"

definition example_methods :: "DesignerContext ContextMethods" where
  "example_methods =
     \<lparr>getSelectedStepParentSequence = (\<lambda>ctx. Inr 0),
      deleteStep = (\<lambda>s q ctx. Inl (Error ''Unknown step'')),
      setSelectedStep = (\<lambda>s ctx. Inr (ctx\<lparr>context_selectedStep := s\<rparr>)),
      notifiyDefinitionChanged = (\<lambda>ctx. Inr ctx)\<rparr>"

definition example_context :: DesignerContext where
  "example_context = \<lparr>context_selectedStep = None, context_isReadonly = False\<rparr>"

section \<open>Properties of the viewport\<close>

lemmas example_defs =
  example_workspace_def render_def new_Workspace_def example_create_def example_main_def
  example_view_def example_sequences_def example_components_def setView_def

lemma onWheel_scale: "scale (onWheel e ws) = min (max (scale ws + wheelDelta e) 0.1) 3"
  by (simp add: onWheel_def Let_def forward_def)

lemma onWheel_position:
  "position (onWheel e ws) =
     add (multiplyByScalar
            (subtract (divideByScalar (subtract (Vector (wheel_pageX e) (wheel_pageY e)) (getPosition (view ws))) (scale ws))
                      (divideByScalar (position ws) (scale ws)))
            (- scale (onWheel e ws)))
         (subtract (Vector (wheel_pageX e) (wheel_pageY e)) (getPosition (view ws)))"
  by (simp add: onWheel_def Let_def forward_def)

text \<open>
  The scale is 1 after the constructor, \<open>onWheel\<close> clamps it and \<open>center\<close> resets it
  to 1; no other method of the workspace writes it.
\<close>

lemma scale_new_Workspace: "scale (new_Workspace v s bc seqs comps) = 1"
  by (simp add: new_Workspace_def)

lemma scale_center: "scale (center ws) = (if mainComponent ws = None then scale ws else 1)"
  by (simp add: center_def Let_def forward_def split: option.splits)

lemma scale_unchanged:
  "scale (setPosition p ws) = scale ws"
  "scale (render create ws) = scale ws"
  "scale (onMouseDown m ws) = scale ws"
  "scale (selectStep c ws) = scale ws"
  "scale (clearSelectedStep ws) = scale ws"
  "scale (toggleIsReadonly ws) = scale ws"
  by (simp_all add: setPosition_def render_def onMouseDown_def selectStep_def
        clearSelectedStep_def toggleIsReadonly_def forward_def setState_def Let_def
        split: option.splits prod.splits)

lemma scale_notifyChanged: "scale (notifyChanged create ws) = scale ws"
  by (simp add: notifyChanged_def forward_def scale_unchanged)

lemma scale_removeSelectedStep: "scale (removeSelectedStep create ws) = scale ws"
  by (simp add: removeSelectedStep_def Let_def scale_notifyChanged split: option.splits)

lemma to_screen_unique:
  assumes "scale ws \<noteq> 0" "to_screen ws p = m"
  shows "p = subtract (divideByScalar m (scale ws)) (divideByScalar (position ws) (scale ws))"
  using assms
  by (cases p; cases m; cases "position ws")
     (auto simp: to_screen_def add_def multiplyByScalar_def subtract_def divideByScalar_def field_simps)

text \<open>
  Claim C1 (zoom to cursor). Let \<open>mousePoint\<close> be the cursor relative to the canvas and
  \<open>mouseRealPoint = mousePoint / scale - position / scale\<close>. When the scale is not
  zero (it never is: it stays within 0.1 and 3), \<open>mouseRealPoint\<close> is the point of
  the canvas shown under the cursor before the event, and the only one. \<open>onWheel\<close>
  sets the position to \<open>- mouseRealPoint * newScale + mousePoint\<close>, so after the
  event \<open>mouseRealPoint * newScale + newPosition = mousePoint\<close>: every point that
  was under the cursor is still under it. The view receives the new position and
  scale. Numbers are real numbers here, so the equalities are exact.
\<close>

theorem onWheel_zoom_to_cursor:
  assumes "scale ws \<noteq> 0"
  shows "let mousePoint = subtract (Vector (wheel_pageX e) (wheel_pageY e)) (getPosition (view ws));
             mouseRealPoint = subtract (divideByScalar mousePoint (scale ws))
                                       (divideByScalar (position ws) (scale ws));
             ws' = onWheel e ws
         in to_screen ws mouseRealPoint = mousePoint
          \<and> position ws' = add (multiplyByScalar mouseRealPoint (- scale ws')) mousePoint
          \<and> to_screen ws' mouseRealPoint = mousePoint
          \<and> (\<forall>p. to_screen ws p = mousePoint \<longrightarrow> to_screen ws' p = mousePoint)
          \<and> foreground_transform (view ws') = Some (position ws', scale ws')"
proof -
  define m where "m = subtract (Vector (wheel_pageX e) (wheel_pageY e)) (getPosition (view ws))"
  define r where "r = subtract (divideByScalar m (scale ws)) (divideByScalar (position ws) (scale ws))"
  have before: "to_screen ws r = m"
    using assms unfolding r_def
    by (cases m; cases "position ws")
       (simp add: to_screen_def add_def multiplyByScalar_def subtract_def divideByScalar_def field_simps)
  have pos: "position (onWheel e ws) = add (multiplyByScalar r (- scale (onWheel e ws))) m"
    unfolding r_def m_def by (rule onWheel_position)
  have after: "to_screen (onWheel e ws) r = m"
    unfolding to_screen_def pos
    by (cases m; cases r) (simp add: add_def multiplyByScalar_def)
  have uniq: "\<forall>p. to_screen ws p = m \<longrightarrow> to_screen (onWheel e ws) p = m"
  proof (intro allI impI)
    fix p assume "to_screen ws p = m"
    then have "p = r" unfolding r_def by (rule to_screen_unique [OF assms])
    then show "to_screen (onWheel e ws) p = m" using after by simp
  qed
  have tr: "foreground_transform (view (onWheel e ws)) = Some (position (onWheel e ws), scale (onWheel e ws))"
    by (simp add: onWheel_def Let_def forward_def setPositionAndScale_def)
  show ?thesis
    unfolding Let_def using before pos after uniq tr unfolding m_def r_def by (intro conjI)
qed

theorem onWheel_zoom_to_cursor_witness:
  "scale example_workspace \<noteq> 0
   \<and> to_screen example_workspace (Vector 100 200) = Vector 100 200
   \<and> scale (onWheel example_wheel example_workspace) = 11 / 10
   \<and> position (onWheel example_wheel example_workspace) = Vector (- 10) (- 20)
   \<and> to_screen (onWheel example_wheel example_workspace) (Vector 100 200) = Vector 100 200"
proof -
  have h: "scale example_workspace \<noteq> 0"
    by (simp add: example_workspace_def render_def new_Workspace_def example_create_def)
  show ?thesis
    using h onWheel_zoom_to_cursor [OF h, of example_wheel]
    by (simp add: Let_def example_workspace_def render_def new_Workspace_def example_create_def
          example_wheel_def example_view_def getPosition_def to_screen_def onWheel_def
          wheelDelta_def forward_def setView_def setPositionAndScale_def
          add_def subtract_def multiplyByScalar_def divideByScalar_def)
qed

lemma wheel_events_in_range:
  "0.1 \<le> scale ws \<Longrightarrow> scale ws \<le> 3 \<Longrightarrow>
   0.1 \<le> scale (wheel_events es ws) \<and> scale (wheel_events es ws) \<le> 3"
proof (induction es arbitrary: ws)
  case Nil
  then show ?case by (simp add: wheel_events_def)
next
  case (Cons e es)
  have "0.1 \<le> scale (onWheel e ws)" "scale (onWheel e ws) \<le> 3"
    by (simp_all add: onWheel_scale)
  from Cons.IH [OF this] show ?case by (simp add: wheel_events_def)
qed

text \<open>
  Claim C4 (scale clamped). From a scale within 0.1 and 3, a wheel event with
  \<open>deltaY \<le> 0\<close> gives the old scale plus 0.1, or 3 when that would exceed 3; a
  wheel event with \<open>deltaY > 0\<close> gives the old scale minus 0.1, or 0.1 when that
  would fall below 0.1. Only the sign of \<open>deltaY\<close> is read. The new scale lies
  within 0.1 and 3, and so does the scale after any list of wheel events.
\<close>

theorem onWheel_scale_clamped:
  assumes "0.1 \<le> scale ws" and "scale ws \<le> 3"
  shows "(deltaY e \<le> 0 \<longrightarrow> scale (onWheel e ws) = (if scale ws + 0.1 \<le> 3 then scale ws + 0.1 else 3))
       \<and> (deltaY e > 0 \<longrightarrow> scale (onWheel e ws) = (if 0.1 \<le> scale ws - 0.1 then scale ws - 0.1 else 0.1))
       \<and> 0.1 \<le> scale (onWheel e ws) \<and> scale (onWheel e ws) \<le> 3
       \<and> (\<forall>es. 0.1 \<le> scale (wheel_events es ws) \<and> scale (wheel_events es ws) \<le> 3)"
proof -
  have a: "deltaY e \<le> 0 \<longrightarrow> scale (onWheel e ws) = (if scale ws + 0.1 \<le> 3 then scale ws + 0.1 else 3)"
    using assms by (simp add: onWheel_scale wheelDelta_def)
  have b: "deltaY e > 0 \<longrightarrow> scale (onWheel e ws) = (if 0.1 \<le> scale ws - 0.1 then scale ws - 0.1 else 0.1)"
    using assms by (simp add: onWheel_scale wheelDelta_def)
  have c: "0.1 \<le> scale (onWheel e ws) \<and> scale (onWheel e ws) \<le> 3"
    by (simp add: onWheel_scale)
  show ?thesis using a b c wheel_events_in_range [OF assms] by blast
qed

theorem onWheel_scale_clamped_witness:
  "(1 / 10 :: real) \<le> scale example_workspace \<and> scale example_workspace \<le> 3
   \<and> scale (onWheel example_wheel example_workspace) = 11 / 10
   \<and> scale (wheel_events [example_wheel, example_wheel] example_workspace) \<le> 3"
proof -
  have h1: "0.1 \<le> scale example_workspace" and h2: "scale example_workspace \<le> 3"
    by (simp_all add: example_defs)
  have d: "deltaY example_wheel \<le> 0"
    by (simp add: example_wheel_def)
  have s: "scale example_workspace = 1"
    by (simp add: example_defs)
  show ?thesis
    using h1 h2 d onWheel_scale_clamped [OF h1 h2, of example_wheel]
    by (simp add: s)
qed

text \<open>
  Claim C10 (centering). With a rendered main component, \<open>center\<close> sets the scale
  to 1 and the position to the halved differences between the canvas size and the
  size of the component, bounded below by 0 horizontally and by 20 vertically;
  it hands both to the view and forwards the viewport event.
\<close>

theorem center_viewport:
  assumes "mainComponent ws = Some mc"
  shows "let ws' = center ws
         in scale ws' = 1
          \<and> vec_x (position ws') = max 0 ((vec_x (getSize (view ws)) - view_width (component_view mc)) / 2)
          \<and> vec_y (position ws') = max 20 ((vec_y (getSize (view ws)) - view_height (component_view mc)) / 2)
          \<and> 0 \<le> vec_x (position ws') \<and> 20 \<le> vec_y (position ws')
          \<and> foreground_transform (view ws') = Some (position ws', 1)
          \<and> events ws' = events ws @ [ViewPortChanged]"
  using assms by (simp add: center_def Let_def forward_def setPositionAndScale_def)

theorem center_viewport_witness:
  "mainComponent example_workspace = Some example_main
   \<and> scale (center example_workspace) = 1
   \<and> position (center example_workspace) = Vector 300 20"
proof -
  have h: "mainComponent example_workspace = Some example_main"
    by (simp add: example_defs)
  have v: "getSize (view example_workspace) = Vector 800 600"
    by (simp add: example_defs getSize_def)
  have m: "view_width (component_view example_main) = 200"
     "view_height (component_view example_main) = 700"
    by (simp_all add: example_main_def)
  have "vec_x (position (center example_workspace)) = 300
      \<and> vec_y (position (center example_workspace)) = 20
      \<and> scale (center example_workspace) = 1"
    using center_viewport [OF h] by (simp add: Let_def v m)
  then show ?thesis
    using h by (cases "position (center example_workspace)") simp
qed

section \<open>Removing the selected step\<close>

lemma selectStep_fields:
  "selectedStep (selectStep b ws) = Some b"
  "state (components (selectStep b ws) c) =
     (if c = b then Selected
      else if selectedStep ws = Some c then Default
      else state (components ws c))"
  "c \<noteq> b \<Longrightarrow> selectedStep ws \<noteq> Some c \<Longrightarrow> components (selectStep b ws) c = components ws c"
  by (auto simp: selectStep_def forward_def setState_def Let_def split: option.splits)

lemma clearSelectedStep_fields:
  "selectedStep (clearSelectedStep ws) = None"
  "state (components (clearSelectedStep ws) c) =
     (if selectedStep ws = Some c then Default else state (components ws c))"
  by (auto simp: clearSelectedStep_def forward_def setState_def Let_def split: option.splits)

lemma indexOf_lower: "- 1 \<le> indexOf xs a"
  by (induction xs) (auto simp: Let_def)

lemma indexOf_absent: "a \<notin> set xs \<Longrightarrow> indexOf xs a = - 1"
  by (induction xs) (auto simp: Let_def)

lemma indexOf_present:
  "a \<in> set xs \<Longrightarrow>
     0 \<le> indexOf xs a \<and> nat (indexOf xs a) < length xs \<and> xs ! nat (indexOf xs a) = a
     \<and> a \<notin> set (take (nat (indexOf xs a)) xs)"
proof (induction xs)
  case Nil
  then show ?case by simp
next
  case (Cons b bs)
  show ?case
  proof (cases "b = a")
    case True
    then show ?thesis by simp
  next
    case False
    with Cons.prems have "a \<in> set bs" by simp
    from Cons.IH [OF this] False show ?thesis
      by (simp add: Let_def nat_add_distrib)
  qed
qed

lemma splice_one_at:
  "0 \<le> i \<Longrightarrow> nat i < length xs \<Longrightarrow> splice_array xs i 1 = take (nat i) xs @ drop (Suc (nat i)) xs"
proof -
  assume a: "0 \<le> i" "nat i < length xs"
  then have b: "i < int (length xs)" by linarith
  have c: "min i (int (length xs)) = i" "min 1 (int (length xs) - i) = 1"
    using b by simp_all
  have d: "nat (i + 1) = Suc (nat i)"
    using a(1) by simp
  show ?thesis
    using a(1) by (simp add: splice_array_def Let_def c d)
qed

lemma splice_minus_one: "splice_array xs (- 1) 1 = butlast xs"
proof (cases xs rule: rev_cases)
  case Nil
  then show ?thesis by (simp add: splice_array_def)
next
  case (snoc ys y)
  then show ?thesis by (simp add: splice_array_def Let_def max_def min_def nat_add_distrib)
qed

lemma notifyChanged_fields:
  "sequences (notifyChanged create ws) = sequences ws"
  "selectedStep (notifyChanged create ws) = None"
  "events (notifyChanged create ws) =
     events ws @ (case selectedStep ws of Some _ \<Rightarrow> [SelectedStepChanged None] | None \<Rightarrow> []) @ [Changed]"
  "mainComponent (notifyChanged create ws) \<noteq> None"
  by (simp_all add: notifyChanged_def render_def clearSelectedStep_def forward_def setState_def
        Let_def split: option.splits prod.splits)

lemma removeSelectedStep_Some:
  "selectedStep ws = Some sel \<Longrightarrow>
   removeSelectedStep create ws =
     notifyChanged create
       (ws\<lparr>sequences := (sequences ws)(parentSequence (components ws sel) :=
              splice_array (sequences ws (parentSequence (components ws sel)))
                (indexOf (sequences ws (parentSequence (components ws sel)))
                   (step (components ws sel))) 1)\<rparr>)"
  by (simp add: removeSelectedStep_def Let_def)

text \<open>
  Claim C2 (removal). When a step component is selected and its step occurs in the
  \<open>steps\<close> array of its parent sequence, \<open>removeSelectedStep\<close> removes the entry at
  the first index holding that step and nothing else: the entries before and
  after it keep their order, the array is one shorter, every other sequence is
  untouched. The selection is cleared, the workspace is rendered again, and the
  events forwarded are the cleared selection followed by the change notification.
\<close>

theorem removeSelectedStep_removes_selected:
  assumes "selectedStep ws = Some sel"
    and "step (components ws sel) \<in> set (sequences ws (parentSequence (components ws sel)))"
  shows "let parent = parentSequence (components ws sel);
             steps = sequences ws parent;
             i = nat (indexOf steps (step (components ws sel)));
             ws' = removeSelectedStep create ws
         in i < length steps \<and> steps ! i = step (components ws sel)
          \<and> step (components ws sel) \<notin> set (take i steps)
          \<and> sequences ws' parent = take i steps @ drop (Suc i) steps
          \<and> length (sequences ws' parent) + 1 = length steps
          \<and> (\<forall>q. q \<noteq> parent \<longrightarrow> sequences ws' q = sequences ws q)
          \<and> selectedStep ws' = None
          \<and> mainComponent ws' \<noteq> None
          \<and> events ws' = events ws @ [SelectedStepChanged None, Changed]"
proof -
  define parent where "parent = parentSequence (components ws sel)"
  define steps where "steps = sequences ws parent"
  define s where "s = step (components ws sel)"
  define i where "i = nat (indexOf steps s)"
  define ws' where "ws' = removeSelectedStep create ws"
  have mem: "s \<in> set steps"
    using assms(2) by (simp add: s_def steps_def parent_def)
  note ix = indexOf_present [OF mem]
  have i1: "i < length steps" and i2: "steps ! i = s" and i3: "s \<notin> set (take i steps)"
    using ix by (simp_all add: i_def)
  have sp: "splice_array steps (indexOf steps s) 1 = take i steps @ drop (Suc i) steps"
    using ix by (simp add: splice_one_at i_def)
  have eq: "ws' = notifyChanged create (ws\<lparr>sequences := (sequences ws)(parent := splice_array steps (indexOf steps s) 1)\<rparr>)"
    unfolding ws'_def parent_def steps_def s_def by (rule removeSelectedStep_Some [OF assms(1)])
  have seqs: "sequences ws' = (sequences ws)(parent := take i steps @ drop (Suc i) steps)"
    by (simp add: eq notifyChanged_fields sp)
  have a: "sequences ws' parent = take i steps @ drop (Suc i) steps"
    by (simp add: seqs)
  have b: "length (sequences ws' parent) + 1 = length steps"
    using i1 by (simp add: a)
  have c: "\<forall>q. q \<noteq> parent \<longrightarrow> sequences ws' q = sequences ws q"
    by (simp add: seqs)
  have d: "selectedStep ws' = None" "mainComponent ws' \<noteq> None"
    by (simp_all add: eq notifyChanged_fields)
  have e: "events ws' = events ws @ [SelectedStepChanged None, Changed]"
    using assms(1) by (simp add: eq notifyChanged_fields)
  show ?thesis
    unfolding Let_def
    using i1 i2 i3 a b c d e
    unfolding ws'_def i_def s_def steps_def parent_def
    by (intro conjI)
qed

theorem removeSelectedStep_removes_selected_witness:
  "selectedStep (selectStep 2 example_workspace) = Some 2
   \<and> sequences (selectStep 2 example_workspace) 0 = [100, 101, 102]
   \<and> sequences (removeSelectedStep example_create (selectStep 2 example_workspace)) 0 = [100, 102]
   \<and> selectedStep (removeSelectedStep example_create (selectStep 2 example_workspace)) = None"
proof -
  have h1: "selectedStep (selectStep 2 example_workspace) = Some 2"
    by (simp add: selectStep_fields)
  have c: "components (selectStep 2 example_workspace) 2
             = \<lparr>step = 101, parentSequence = 0, state = Selected\<rparr>"
    by (simp add: selectStep_def forward_def setState_def example_defs)
  have q: "sequences (selectStep 2 example_workspace) 0 = [100, 101, 102]"
    by (simp add: selectStep_def forward_def setState_def example_defs)
  have h2: "step (components (selectStep 2 example_workspace) 2)
              \<in> set (sequences (selectStep 2 example_workspace)
                        (parentSequence (components (selectStep 2 example_workspace) 2)))"
    by (simp add: c q)
  show ?thesis
    using h1 q removeSelectedStep_removes_selected [OF h1 h2, of example_create]
    by (simp add: Let_def c q)
qed

text \<open>
  Claim C9 (step absent from its recorded parent). When the step of the selected
  component is not in the \<open>steps\<close> array of the recorded parent sequence, \<open>indexOf\<close>
  answers \<open>-1\<close> and the call \<open>splice(-1, 1)\<close> removes the last entry of a non-empty
  array; an empty array stays empty.
\<close>

theorem removeSelectedStep_absent_removes_last:
  assumes "selectedStep ws = Some sel"
    and "step (components ws sel) \<notin> set (sequences ws (parentSequence (components ws sel)))"
  shows "let parent = parentSequence (components ws sel);
             steps = sequences ws parent;
             ws' = removeSelectedStep create ws
         in indexOf steps (step (components ws sel)) = - 1
          \<and> sequences ws' parent = butlast steps
          \<and> (steps \<noteq> [] \<longrightarrow> sequences ws' parent @ [last steps] = steps)
          \<and> (steps = [] \<longrightarrow> sequences ws' parent = [])"
proof -
  define parent where "parent = parentSequence (components ws sel)"
  define steps where "steps = sequences ws parent"
  define s where "s = step (components ws sel)"
  define ws' where "ws' = removeSelectedStep create ws"
  have ix: "indexOf steps s = - 1"
    using assms(2) by (simp add: indexOf_absent s_def steps_def parent_def)
  have eq: "ws' = notifyChanged create (ws\<lparr>sequences := (sequences ws)(parent := splice_array steps (indexOf steps s) 1)\<rparr>)"
    unfolding ws'_def parent_def steps_def s_def by (rule removeSelectedStep_Some [OF assms(1)])
  have a: "sequences ws' parent = butlast steps"
    by (simp add: eq notifyChanged_fields ix splice_minus_one)
  have b: "steps \<noteq> [] \<longrightarrow> sequences ws' parent @ [last steps] = steps"
    by (simp add: a)
  have c: "steps = [] \<longrightarrow> sequences ws' parent = []"
    by (simp add: a)
  show ?thesis
    unfolding Let_def
    using ix a b c
    unfolding ws'_def s_def steps_def parent_def
    by (intro conjI)
qed

theorem removeSelectedStep_absent_removes_last_witness:
  "selectedStep (selectStep 5 example_workspace) = Some 5
   \<and> step (components (selectStep 5 example_workspace) 5) = 104
   \<and> sequences (selectStep 5 example_workspace) 0 = [100, 101, 102]
   \<and> sequences (removeSelectedStep example_create (selectStep 5 example_workspace)) 0 = [100, 101]"
proof -
  have h1: "selectedStep (selectStep 5 example_workspace) = Some 5"
    by (simp add: selectStep_fields)
  have c: "components (selectStep 5 example_workspace) 5
             = \<lparr>step = 104, parentSequence = 0, state = Selected\<rparr>"
    by (simp add: selectStep_def forward_def setState_def example_defs)
  have q: "sequences (selectStep 5 example_workspace) 0 = [100, 101, 102]"
    by (simp add: selectStep_def forward_def setState_def example_defs)
  have h2: "step (components (selectStep 5 example_workspace) 5)
              \<notin> set (sequences (selectStep 5 example_workspace)
                        (parentSequence (components (selectStep 5 example_workspace) 5)))"
    by (simp add: c q)
  note t = removeSelectedStep_absent_removes_last [OF h1 h2, of example_create, unfolded Let_def]
  from t have "sequences (removeSelectedStep example_create (selectStep 5 example_workspace))
                 (parentSequence (components (selectStep 5 example_workspace) 5))
               = butlast (sequences (selectStep 5 example_workspace)
                   (parentSequence (components (selectStep 5 example_workspace) 5)))"
    by (elim conjE)
  then have "sequences (removeSelectedStep example_create (selectStep 5 example_workspace)) 0
               = [100, 101]"
    by (simp add: c q)
  then show ?thesis
    using h1 q by (simp add: c)
qed

text \<open>
  Claim C8 (delete without selection). With no selected step,
  \<open>removeSelectedStep\<close> returns the workspace as it was (no sequence changed, no
  event forwarded), and the handler of the delete button returns normally with the
  context as it was, calling none of the methods that could change it or throw.
\<close>

theorem delete_without_selection_is_noop:
  "(selectedStep ws = None \<longrightarrow> removeSelectedStep create ws = ws)
   \<and> (context_selectedStep ctx = None \<longrightarrow> onDeleteButtonClicked m ctx = Inr ctx)"
  by (simp add: removeSelectedStep_def onDeleteButtonClicked_def)

theorem delete_without_selection_is_noop_witness:
  "selectedStep example_workspace = None
   \<and> removeSelectedStep example_create example_workspace = example_workspace
   \<and> context_selectedStep example_context = None
   \<and> onDeleteButtonClicked example_methods example_context = Inr example_context"
proof -
  have h1: "selectedStep example_workspace = None"
    by (simp add: example_defs)
  have h2: "context_selectedStep example_context = None"
    by (simp add: example_context_def)
  show ?thesis
    using h1 h2
      delete_without_selection_is_noop [of example_workspace example_create example_context example_methods]
    by simp
qed

section \<open>Selection\<close>

lemma selection_consistent_iff:
  "selection_consistent ws \<longleftrightarrow> (\<forall>c. state (components ws c) = Selected \<longleftrightarrow> selectedStep ws = Some c)"
proof (cases "selectedStep ws")
  case None
  then show ?thesis
    by (simp add: selection_consistent_def selected_components_def)
next
  case (Some d)
  have "{c. state (components ws c) = Selected} = {d}
          \<longleftrightarrow> (\<forall>c. state (components ws c) = Selected \<longleftrightarrow> c = d)"
    by (simp add: set_eq_iff)
  with Some show ?thesis
    by (auto simp: selection_consistent_def selected_components_def)
qed

lemma selection_consistent_selectStep:
  "selection_consistent ws \<Longrightarrow> selection_consistent (selectStep b ws)"
  by (auto simp: selection_consistent_iff selectStep_fields)

lemma selection_consistent_clearSelectedStep:
  "selection_consistent ws \<Longrightarrow> selection_consistent (clearSelectedStep ws)"
  by (auto simp: selection_consistent_iff clearSelectedStep_fields)

lemma selection_consistent_calls:
  "selection_consistent ws \<Longrightarrow> selection_consistent (selection_calls cs ws)"
proof (induction cs arbitrary: ws)
  case Nil
  then show ?case by (simp add: selection_calls_def)
next
  case (Cons c cs)
  have "selection_consistent (selection_call ws c)"
    using Cons.prems
    by (cases c) (simp_all add: selection_consistent_selectStep selection_consistent_clearSelectedStep)
  from Cons.IH [OF this] show ?case by (simp add: selection_calls_def)
qed

lemma selection_consistent_card:
  "selection_consistent ws \<Longrightarrow> finite (selected_components ws) \<and> card (selected_components ws) \<le> 1"
  by (simp add: selection_consistent_def split: option.splits)

text \<open>
  Claim C3 (exclusive selection). In every state, \<open>selectStep b\<close> leaves \<open>b\<close> in the
  selected state and recorded as the selection, puts a previously selected
  component other than \<open>b\<close> back to the default state, and changes no other
  component. Starting from a state where the components in the selected state
  are exactly the recorded selection (as after construction, where nothing is
  selected), this stays so after every list of \<open>selectStep\<close> and
  \<open>clearSelectedStep\<close> calls: at most one component is in the selected state.
\<close>

theorem selection_is_exclusive:
  "(let ws' = selectStep b ws
    in state (components ws' b) = Selected
     \<and> selectedStep ws' = Some b
     \<and> (\<forall>a. selectedStep ws = Some a \<and> a \<noteq> b \<longrightarrow> state (components ws' a) = Default)
     \<and> (\<forall>c. c \<noteq> b \<and> selectedStep ws \<noteq> Some c \<longrightarrow> components ws' c = components ws c))
   \<and> (selection_consistent ws \<longrightarrow>
        (\<forall>cs. let ws' = selection_calls cs ws
              in selected_components ws' = (case selectedStep ws' of None \<Rightarrow> {} | Some c \<Rightarrow> {c})
               \<and> finite (selected_components ws') \<and> card (selected_components ws') \<le> 1))"
proof -
  have a: "let ws' = selectStep b ws
    in state (components ws' b) = Selected
     \<and> selectedStep ws' = Some b
     \<and> (\<forall>a. selectedStep ws = Some a \<and> a \<noteq> b \<longrightarrow> state (components ws' a) = Default)
     \<and> (\<forall>c. c \<noteq> b \<and> selectedStep ws \<noteq> Some c \<longrightarrow> components ws' c = components ws c)"
    by (simp add: Let_def selectStep_fields)
  have b: "selection_consistent ws \<longrightarrow>
        (\<forall>cs. let ws' = selection_calls cs ws
              in selected_components ws' = (case selectedStep ws' of None \<Rightarrow> {} | Some c \<Rightarrow> {c})
               \<and> finite (selected_components ws') \<and> card (selected_components ws') \<le> 1)"
  proof (intro impI allI)
    fix cs assume "selection_consistent ws"
    then have c: "selection_consistent (selection_calls cs ws)"
      by (rule selection_consistent_calls)
    from c selection_consistent_card [OF c]
    show "let ws' = selection_calls cs ws
              in selected_components ws' = (case selectedStep ws' of None \<Rightarrow> {} | Some c \<Rightarrow> {c})
               \<and> finite (selected_components ws') \<and> card (selected_components ws') \<le> 1"
      by (simp add: Let_def selection_consistent_def)
  qed
  from a b show ?thesis by (rule conjI)
qed

theorem selection_is_exclusive_witness:
  "selection_consistent example_workspace
   \<and> selected_components
        (selection_calls [SelectStep 2, SelectStep 3, ClearSelectedStep, SelectStep 4]
           example_workspace) = {4}"
proof -
  have h: "selection_consistent example_workspace"
    by (simp add: selection_consistent_def selected_components_def example_defs)
  have s: "selectedStep
        (selection_calls [SelectStep 2, SelectStep 3, ClearSelectedStep, SelectStep 4]
           example_workspace) = Some 4"
    by (simp add: selection_calls_def selectStep_fields)
  show ?thesis
    using h s selection_is_exclusive [of 2 example_workspace]
    by (simp add: Let_def)
qed

section \<open>Pointer events\<close>

text \<open>
  Claim C5 (mouse down on the workspace). With a rendered main component, the
  behavior controller is asked to start exactly one behavior: the select-step
  behavior for the component found by the hit test, when the button is not the
  middle one, the workspace is not readonly and the hit test finds a component;
  the move-viewport behavior from the current position in every other case.
  Nothing else of the workspace changes.
\<close>

theorem onMouseDown_starts_behavior:
  assumes "mainComponent ws = Some mc"
  shows "let hit = (button e \<noteq> 1 \<and> \<not> isReadonly ws \<and> findStepComponent mc (target e) \<noteq> None);
             ws' = onMouseDown e ws
         in (hit \<longrightarrow> started (behaviorController ws') =
                 started (behaviorController ws)
                   @ [(e, SelectStepBehavior (the (findStepComponent mc (target e))))])
          \<and> (\<not> hit \<longrightarrow> started (behaviorController ws') =
                 started (behaviorController ws) @ [(e, MoveViewPortBehavior (position ws))])
          \<and> ((\<exists>c. last (started (behaviorController ws')) = (e, SelectStepBehavior c)) \<longleftrightarrow> hit)
          \<and> ws' = ws\<lparr>behaviorController := behaviorController ws'\<rparr>"
  using assms
  by (auto simp: onMouseDown_def start_def Let_def split: option.splits)

theorem onMouseDown_starts_behavior_witness:
  "mainComponent example_workspace = Some example_main
   \<and> started (behaviorController (onMouseDown example_press example_workspace))
       = [(example_press, SelectStepBehavior 2)]
   \<and> started (behaviorController (onMouseDown (example_press\<lparr>button := 1\<rparr>) example_workspace))
       = [(example_press\<lparr>button := 1\<rparr>, MoveViewPortBehavior (Vector 0 0))]"
proof -
  have h: "mainComponent example_workspace = Some example_main"
    by (simp add: example_defs)
  have f: "button example_press = 0" "target example_press = 41"
       "findStepComponent example_main 41 = Some 2"
       "\<not> isReadonly example_workspace" "position example_workspace = Vector 0 0"
       "started (behaviorController example_workspace) = []"
    by (simp_all add: example_press_def example_defs)
  show ?thesis
    using h onMouseDown_starts_behavior [OF h, of example_press]
      onMouseDown_starts_behavior [OF h, of "example_press\<lparr>button := 1\<rparr>"]
    by (simp add: Let_def f)
qed

lemma createStep_eq:
  "createStep s w =
     (next_ref w,
      w\<lparr>objects := (objects w)(next_ref w := set_id (Some (uid_issued w)) (objects w s)),
        next_ref := Suc (next_ref w),
        uid_issued := Suc (uid_issued w)\<rparr>)"
  by (simp add: createStep_def deepClone_def Uid_next_def)

lemma startDrag_eq:
  "\<not> state_isReadonly w \<Longrightarrow>
   startDrag pos w =
     w\<lparr>objects := (objects w)(next_ref w := set_id (Some (uid_issued w)) (objects w (item_step w))),
       next_ref := Suc (next_ref w),
       uid_issued := Suc (uid_issued w),
       item_behaviorController :=
         start pos (DragStepBehavior (next_ref w)) (item_behaviorController w)\<rparr>"
  by (simp add: startDrag_def createStep_eq)

lemma startDrag_readonly: "state_isReadonly w \<Longrightarrow> startDrag pos w = w"
  by (simp add: startDrag_def)

text \<open>
  Claim C6 (readonly toolbox). While the readonly flag of the designer state is
  set, \<open>startDrag\<close>, and with it the mouse-down and touch-start handlers, leave
  the toolbox item and everything it reaches as they were: no object is copied,
  no identifier is issued, the controller is not asked to start a behavior, and
  the touch handler does not fail.
\<close>

theorem toolbox_readonly_starts_nothing:
  assumes "state_isReadonly w"
  shows "startDrag pos w = w
       \<and> snd (onMousedown e w) = w
       \<and> (\<exists>fl. onTouchstart t w = Inr (fl, w))"
proof -
  have a: "startDrag pos w = w"
    using assms by (rule startDrag_readonly)
  have b: "snd (onMousedown e w) = w"
    using assms by (simp add: onMousedown_def Let_def startDrag_readonly)
  have c: "\<exists>fl. onTouchstart t w = Inr (fl, w)"
  proof (cases "touches t")
    case Nil
    then show ?thesis by (simp add: onTouchstart_def Let_def)
  next
    case (Cons p ps)
    then show ?thesis
      using assms by (simp add: onTouchstart_def Let_def readTouchPosition_def startDrag_readonly)
  qed
  from a b c show ?thesis by (intro conjI)
qed

theorem toolbox_readonly_starts_nothing_witness:
  "state_isReadonly (example_item\<lparr>state_isReadonly := True\<rparr>)
   \<and> snd (onMousedown example_press (example_item\<lparr>state_isReadonly := True\<rparr>))
       = example_item\<lparr>state_isReadonly := True\<rparr>
   \<and> (\<exists>fl. onTouchstart example_touch (example_item\<lparr>state_isReadonly := True\<rparr>)
             = Inr (fl, example_item\<lparr>state_isReadonly := True\<rparr>))"
proof -
  have h: "state_isReadonly (example_item\<lparr>state_isReadonly := True\<rparr>)"
    by simp
  show ?thesis
    using h toolbox_readonly_starts_nothing [OF h, of "Vector 0 0" example_press example_touch]
    by simp
qed

text \<open>
  Claim C7 (starting a drag from the toolbox). When not readonly, a mouse-down
  with button 0, or a touch-start with exactly one touch, yields the state
  \<open>dragged_from\<close> at the pointer position: a new object, distinct from the template
  and from every object allocated before, holds the contents of the template with
  the next identifier as its \<open>id\<close>; that identifier was not issued before; the
  template and all earlier objects are unchanged; and the controller is asked to
  start dragging the new step at that position. Any other button, or a number of
  touches other than one, changes nothing.
\<close>

theorem toolbox_press_starts_drag:
  assumes "\<not> state_isReadonly w" and "item_step w < next_ref w"
  shows "(button e = 0 \<longrightarrow> snd (onMousedown e w) = dragged_from (readMousePosition e) w)
       \<and> (button e \<noteq> 0 \<longrightarrow> snd (onMousedown e w) = w)
       \<and> (\<forall>p. touches t = [p] \<longrightarrow> (\<exists>fl. onTouchstart t w = Inr (fl, dragged_from p w)))
       \<and> (length (touches t) \<noteq> 1 \<longrightarrow> (\<exists>fl. onTouchstart t w = Inr (fl, w)))
       \<and> (let w' = dragged_from pos w; newStep = next_ref w
          in newStep \<noteq> item_step w
           \<and> item_step w' = item_step w
           \<and> objects w' (item_step w) = objects w (item_step w)
           \<and> (\<forall>r. r < next_ref w \<longrightarrow> objects w' r = objects w r)
           \<and> objects w' newStep = set_id (Some (uid_issued w)) (objects w (item_step w))
           \<and> step_id (objects w' newStep) = Some (uid_issued w)
           \<and> uid_issued w \<notin> issued_ids w
           \<and> issued_ids w' = insert (uid_issued w) (issued_ids w)
           \<and> started (item_behaviorController w') =
               started (item_behaviorController w) @ [(pos, DragStepBehavior newStep)])"
proof -
  have sd: "startDrag q w = dragged_from q w" for q
    using assms(1) by (simp add: startDrag_eq dragged_from_def start_def)
  have a: "button e = 0 \<longrightarrow> snd (onMousedown e w) = dragged_from (readMousePosition e) w"
    by (simp add: onMousedown_def sd)
  have b: "button e \<noteq> 0 \<longrightarrow> snd (onMousedown e w) = w"
    by (simp add: onMousedown_def)
  have c: "\<forall>p. touches t = [p] \<longrightarrow> (\<exists>fl. onTouchstart t w = Inr (fl, dragged_from p w))"
    by (simp add: onTouchstart_def readTouchPosition_def sd)
  have d: "length (touches t) \<noteq> 1 \<longrightarrow> (\<exists>fl. onTouchstart t w = Inr (fl, w))"
    by (simp add: onTouchstart_def)
  have sid: "step_id (set_id i ob) = i" for i ob
    by (cases ob) simp
  have e: "let w' = dragged_from pos w; newStep = next_ref w
          in newStep \<noteq> item_step w
           \<and> item_step w' = item_step w
           \<and> objects w' (item_step w) = objects w (item_step w)
           \<and> (\<forall>r. r < next_ref w \<longrightarrow> objects w' r = objects w r)
           \<and> objects w' newStep = set_id (Some (uid_issued w)) (objects w (item_step w))
           \<and> step_id (objects w' newStep) = Some (uid_issued w)
           \<and> uid_issued w \<notin> issued_ids w
           \<and> issued_ids w' = insert (uid_issued w) (issued_ids w)
           \<and> started (item_behaviorController w') =
               started (item_behaviorController w) @ [(pos, DragStepBehavior newStep)]"
    using assms(2) by (auto simp: Let_def dragged_from_def issued_ids_def sid)
  from a b c d e show ?thesis by (intro conjI)
qed

theorem toolbox_press_starts_drag_witness:
  "\<not> state_isReadonly example_item \<and> item_step example_item < next_ref example_item
   \<and> objects (snd (onMousedown example_press example_item)) 3
       = StepObject (Some 5) ''task'' ''Send mail'' [(''to'', ''x'')] None
   \<and> objects (snd (onMousedown example_press example_item)) 2 = example_template
   \<and> started (item_behaviorController (snd (onMousedown example_press example_item)))
       = [(Vector 30 40, DragStepBehavior 3)]
   \<and> snd (onMousedown (example_press\<lparr>button := 2\<rparr>) example_item) = example_item"
proof -
  have h1: "\<not> state_isReadonly example_item"
    and h2: "item_step example_item < next_ref example_item"
    by (simp_all add: example_item_def)
  have b: "button example_press = 0" "readMousePosition example_press = Vector 30 40"
    by (simp_all add: example_press_def readMousePosition_def)
  show ?thesis
    using h1 h2 toolbox_press_starts_drag [OF h1 h2, of example_press example_touch "Vector 30 40"]
      toolbox_press_starts_drag [OF h1 h2, of "example_press\<lparr>button := 2\<rparr>" example_touch "Vector 30 40"]
    by (simp add: Let_def b dragged_from_def example_item_def example_template_def)
qed

end
